theory Spec2Isabelle
  imports Main "HOL-Library.Sublist"
begin

text \<open>
  The attachment decoder, the attachment summarizer, the block stripping, the fallback
  documentation and the orchestrator of \<open>app/llm_generator.py\<close>.
\<close>

section \<open>Python strings\<close>

text \<open>
  A Python \<open>str\<close> is modelled as a \<open>string\<close>, one \<open>char\<close> per code point (code points
  below 256). Positions are natural numbers; a search that Python answers with \<open>-1\<close>
  answers \<open>None\<close> here, and every raise of the source is an \<open>Inl\<close> value.
\<close>

datatype error =
    IndexError
  | ValueError
  | AttributeError
  | Base64Error
  | OSError string
  | StopIteration

text \<open>\<open>str(e)\<close> as it is formatted into a summary line.\<close>

fun str_error :: "error \<Rightarrow> string" where
  "str_error IndexError = ''string index out of range''"
| "str_error ValueError = ''not enough values to unpack (expected 2, got 1)''"
| "str_error AttributeError =
     [CHR 0x27] @ ''NoneType'' @ [CHR 0x27] @ '' object has no attribute ''
     @ [CHR 0x27] @ ''startswith'' @ [CHR 0x27]"
| "str_error Base64Error = ''Incorrect padding''"
| "str_error (OSError msg) = msg"
| "str_error StopIteration = []"

definition fence :: string where
  "fence = ''```''"

definition newline :: string where
  "newline = ''\<newline>''"

text \<open>\<open>s.find(sub)\<close>: the lowest index at which \<open>sub\<close> occurs.\<close>

fun find_str :: "string \<Rightarrow> string \<Rightarrow> nat option" where
  "find_str sub [] = (if sub = [] then Some 0 else None)"
| "find_str sub (c # cs) =
     (if prefix sub (c # cs) then Some 0 else map_option Suc (find_str sub cs))"

text \<open>\<open>sub in s\<close>.\<close>

definition contains_str :: "string \<Rightarrow> string \<Rightarrow> bool" where
  "contains_str sub s = (find_str sub s \<noteq> None)"

text \<open>\<open>s.find(sub, start)\<close> for \<open>start \<ge> 0\<close>.\<close>

definition find_from :: "string \<Rightarrow> string \<Rightarrow> nat \<Rightarrow> nat option" where
  "find_from sub s start =
     (if length s < start then None
      else map_option (\<lambda>i. start + i) (find_str sub (drop start s)))"

text \<open>\<open>s.rfind(sub)\<close>: the highest index at which \<open>sub\<close> occurs.\<close>

fun rfind_str :: "string \<Rightarrow> string \<Rightarrow> nat option" where
  "rfind_str sub [] = (if sub = [] then Some 0 else None)"
| "rfind_str sub (c # cs) =
     (case rfind_str sub cs of
        Some j \<Rightarrow> Some (Suc j)
      | None \<Rightarrow> if prefix sub (c # cs) then Some 0 else None)"

text \<open>
  \<open>s.split(sep)\<close>: the pieces between the non-overlapping occurrences of \<open>sep\<close>, found
  from the left. Python raises on an empty separator; the source only splits on
  non-empty literals, and the model answers \<open>[]\<close> there.
\<close>

function split_str :: "string \<Rightarrow> string \<Rightarrow> string list" where
  "split_str sep s =
     (if sep = [] then []
      else case find_str sep s of
             None \<Rightarrow> [s]
           | Some i \<Rightarrow> take i s # split_str sep (drop (i + length sep) s))"
  by pat_completeness auto

lemma find_str_bound: "find_str sub s = Some i \<Longrightarrow> i + length sub \<le> length s"
proof (induction s arbitrary: i)
  case Nil
  then show ?case by (simp split: if_splits)
next
  case (Cons c cs)
  show ?case
  proof (cases "prefix sub (c # cs)")
    case True
    then have "length sub \<le> length (c # cs)" by (rule prefix_length_le)
    with True Cons.prems show ?thesis by simp
  next
    case False
    with Cons.prems obtain j where "find_str sub cs = Some j" "i = Suc j"
      by auto
    with Cons.IH show ?thesis by fastforce
  qed
qed

termination split_str
proof (relation "measure (\<lambda>(sep, s). length s)")
  show "wf (measure (\<lambda>(sep, s). length s))" by simp
next
  fix sep s :: string and i :: nat
  assume "sep \<noteq> []" and "find_str sep s = Some i"
  then have "i + length sep \<le> length s" and "0 < length sep"
    by (auto dest: find_str_bound)
  then have "length s - (i + length sep) < length s"
    by arith
  then show "((sep, drop (i + length sep) s), (sep, s)) \<in> measure (\<lambda>(sep, s). length s)"
    by simp
qed

declare split_str.simps [simp del]

text \<open>\<open>s.split(sep, 1)\<close>: at most one split.\<close>

definition split_once :: "string \<Rightarrow> string \<Rightarrow> string list" where
  "split_once sep s =
     (case find_str sep s of
        None \<Rightarrow> [s]
      | Some i \<Rightarrow> [take i s, drop (i + length sep) s])"

text \<open>\<open>s.replace(old, new)\<close>.\<close>

function replace_str :: "string \<Rightarrow> string \<Rightarrow> string \<Rightarrow> string" where
  "replace_str old new s =
     (if old = [] then new @ concat (map (\<lambda>c. c # new) s)
      else case find_str old s of
             None \<Rightarrow> s
           | Some i \<Rightarrow> take i s @ new @ replace_str old new (drop (i + length old) s))"
  by pat_completeness auto

termination replace_str
proof (relation "measure (\<lambda>(old, new, s). length s)")
  show "wf (measure (\<lambda>(old, new, s). length s))" by simp
next
  fix old new s :: string and i :: nat
  assume "old \<noteq> []" and "find_str old s = Some i"
  then have "i + length old \<le> length s" and "0 < length old"
    by (auto dest: find_str_bound)
  then have "length s - (i + length old) < length s"
    by arith
  then show "((old, new, drop (i + length old) s), (old, new, s)) \<in> measure (\<lambda>(old, new, s). length s)"
    by simp
qed

declare replace_str.simps [simp del]

text \<open>\<open>sep.join(xs)\<close>.\<close>

fun join_str :: "string \<Rightarrow> string list \<Rightarrow> string" where
  "join_str sep [] = []"
| "join_str sep [x] = x"
| "join_str sep (x # y # ys) = x @ sep @ join_str sep (y # ys)"

text \<open>
  \<open>str.isspace\<close> on one character: tab to carriage return, the four separators
  \<open>0x1c\<close> to \<open>0x1f\<close>, space, next-line and no-break space.
\<close>

definition is_space :: "char \<Rightarrow> bool" where
  "is_space c =
     (let n = (of_char c :: nat)
      in (9 \<le> n \<and> n \<le> 13) \<or> (28 \<le> n \<and> n \<le> 32) \<or> n = 133 \<or> n = 160)"

definition lstrip :: "string \<Rightarrow> string" where
  "lstrip s = dropWhile is_space s"

definition rstrip :: "string \<Rightarrow> string" where
  "rstrip s = rev (dropWhile is_space (rev s))"

text \<open>\<open>s.strip()\<close>.\<close>

definition strip :: "string \<Rightarrow> string" where
  "strip s = rstrip (lstrip s)"

text \<open>\<open>str(n)\<close> for an integer, as an f-string formats it.\<close>

fun digits :: "nat \<Rightarrow> string" where
  "digits n =
     (if n < 10 then [''0123456789'' ! n]
      else digits (n div 10) @ [''0123456789'' ! (n mod 10)])"

declare digits.simps [simp del]

definition str_int :: "int \<Rightarrow> string" where
  "str_int i = (if i < 0 then CHR ''-'' # digits (nat (- i)) else digits (nat i))"


section \<open>Block stripping\<close>

text \<open>
  \<open>_strip_code_block\<close>. The index \<open>text[start]\<close> is read without a bound check, so a
  text whose first fence is its end raises \<open>IndexError\<close>. A failed search for the line
  end gives \<open>-1 + 1 = 0\<close>.
\<close>

definition strip_code_block :: "string \<Rightarrow> error + string" where
  "strip_code_block text =
     (case find_str fence text of
        None \<Rightarrow> Inr (strip text)
      | Some i \<Rightarrow>
          (let start = i + 3
           in if length text \<le> start then Inl IndexError
              else
                (let start' =
                       (if text ! start \<noteq> CHR ''\<newline>''
                        then (case find_from newline text start of
                                None \<Rightarrow> 0
                              | Some j \<Rightarrow> j + 1)
                        else start)
                 in case rfind_str fence text of
                      None \<Rightarrow> Inr (strip text)
                    | Some e \<Rightarrow>
                        if start' < e
                        then Inr (strip (take (e - start') (drop start' text)))
                        else Inr (strip text))))"


section \<open>Fallback documentation\<close>

text \<open>
  \<open>generate_readme_fallback\<close>: \<open>checks or []\<close> and \<open>attachments_meta or ""\<close> read an
  absent argument as empty.
\<close>

definition readme_title :: "int \<Rightarrow> string" where
  "readme_title round_num = ''# Auto-generated README (Round '' @ str_int round_num @ '')''"

definition readme_tail :: string where
  "readme_tail =
     ''\<newline>\<newline>## Setup\<newline>1. Open `index.html` in a browser.\<newline>'' @
     ''2. No build steps required.\<newline>\<newline>## Notes\<newline>'' @
     ''This README was generated as a fallback because the LLM did not return an explicit README.\<newline>''"

definition generate_readme_fallback ::
    "string \<Rightarrow> string list option \<Rightarrow> string option \<Rightarrow> int \<Rightarrow> string" where
  "generate_readme_fallback brief checks attachments_meta round_num =
     (let checks_text = join_str newline (case checks of None \<Rightarrow> [] | Some cs \<Rightarrow> cs);
          att_text = (case attachments_meta of None \<Rightarrow> [] | Some m \<Rightarrow> m)
      in readme_title round_num @
         ''\<newline>\<newline>**Project brief:** '' @ brief @
         ''\<newline>\<newline>**Attachments:**\<newline>'' @ att_text @
         ''\<newline>\<newline>**Checks to meet:**\<newline>'' @ checks_text @
         readme_tail)"


section \<open>Response extraction\<close>

text \<open>
  The last step of \<open>generate_app_code\<close>: split the response on the fence and strip the
  segments at positions 1 and 3, or strip the whole response and take the fallback
  documentation. A raise of the block stripping is not caught here.
\<close>

definition extract_response ::
    "string \<Rightarrow> string list option \<Rightarrow> string option \<Rightarrow> int \<Rightarrow> string
       \<Rightarrow> error + (string \<times> string)" where
  "extract_response brief checks attachments_meta round_num text =
     (let parts = split_str fence text
      in if 5 \<le> length parts
         then (case strip_code_block (fence @ parts ! 1 @ fence) of
                 Inl e \<Rightarrow> Inl e
               | Inr code_part \<Rightarrow>
                   (case strip_code_block (fence @ parts ! 3 @ fence) of
                      Inl e \<Rightarrow> Inl e
                    | Inr readme_part \<Rightarrow> Inr (code_part, readme_part)))
         else (case strip_code_block text of
                 Inl e \<Rightarrow> Inl e
               | Inr code_part \<Rightarrow>
                   Inr (code_part,
                        generate_readme_fallback brief checks attachments_meta round_num)))"


section \<open>The environment\<close>

text \<open>
  What the source takes from its libraries and from the operating system is a parameter:
  \<open>base64.b64decode\<close>, the string of \<open>TMP_DIR / name\<close>, whether opening or writing a
  file raises, the text a file's bytes decode to (UTF-8 with \<open>errors="ignore"\<close>, newlines
  translated), \<open>repr\<close> of a path inside an error text and of the checks inside the
  prompt, and the external generator.
  The files of the scratch directory are a map from paths to contents.
\<close>

type_synonym bytes = string

type_synonym files = "string \<rightharpoonup> bytes"

datatype gen_outcome = GenRaised | GenText "string option"

record env =
  b64decode :: "string \<Rightarrow> error + bytes"
  tmp_path :: "string \<Rightarrow> string"
  open_wb :: "string \<Rightarrow> error option"
  write_err :: "string \<Rightarrow> bytes \<Rightarrow> error option"
  open_r :: "string \<Rightarrow> error option"
  decode_text :: "bytes \<Rightarrow> string"
  repr_path :: "string \<Rightarrow> string"
  repr_checks :: "string list \<Rightarrow> string"
  generate_content :: "string \<Rightarrow> gen_outcome"


section \<open>Decoding attachments\<close>

text \<open>
  An input dictionary: \<open>att_name\<close> is \<open>att.get("name")\<close> (\<open>None\<close> when the key is missing
  or null). The value under \<open>"url"\<close> is a field: the key is missing, or it holds null, or
  it holds a string.
\<close>

datatype field = Missing | Null | Text string

record attachment =
  att_name :: "string option"
  att_url :: field

record saved_attachment =
  name :: string
  path :: string
  mime :: string
  size' :: nat

text \<open>\<open>att.get("name") or "attachment"\<close>.\<close>

definition name_or_default :: "attachment \<Rightarrow> string" where
  "name_or_default att =
     (case att_name att of
        None \<Rightarrow> ''attachment''
      | Some n \<Rightarrow> if n = [] then ''attachment'' else n)"

text \<open>
  \<open>att.get("url", "")\<close>: the default stands in for a missing key only, so a null comes
  back as Python's \<open>None\<close>, here \<open>None\<close>.
\<close>

definition url_or_empty :: "attachment \<Rightarrow> string option" where
  "url_or_empty att =
     (case att_url att of Missing \<Rightarrow> Some [] | Null \<Rightarrow> None | Text u \<Rightarrow> Some u)"

text \<open>
  The body of the \<open>try\<close>: the files afterwards and the record, or the exception raised.
  A file opened for writing is truncated before the write can fail.
\<close>

definition decode_try ::
    "env \<Rightarrow> files \<Rightarrow> string \<Rightarrow> string \<Rightarrow> files \<times> (error + saved_attachment)" where
  "decode_try E fs nm url =
     (case split_once '','' url of
        [header, b64data] \<Rightarrow>
          (case split_str '';'' header of
             [] \<Rightarrow> (fs, Inl IndexError)
           | h # _ \<Rightarrow>
               (let mime = replace_str ''data:'' [] h
                in case b64decode E b64data of
                     Inl e \<Rightarrow> (fs, Inl e)
                   | Inr data \<Rightarrow>
                       (let p = tmp_path E nm
                        in case open_wb E p of
                             Some e \<Rightarrow> (fs, Inl e)
                           | None \<Rightarrow>
                               (case write_err E p data of
                                  Some e \<Rightarrow> (fs(p \<mapsto> []), Inl e)
                                | None \<Rightarrow>
                                    (fs(p \<mapsto> data),
                                     Inr \<lparr>name = nm, path = p, mime = mime,
                                          size' = length data\<rparr>)))))
      | _ \<Rightarrow> (fs, Inl ValueError))"

text \<open>
  The loop of \<open>decode_attachments\<close>: the files afterwards and the records, or the
  exception that leaves the function. \<open>url.startswith\<close> stands before the \<open>try\<close>: on
  \<open>None\<close> it raises \<open>AttributeError\<close> and the loop ends there. A url outside the
  \<open>data:\<close> scheme is skipped, an exception of the body of the \<open>try\<close> is caught (and
  printed) and the loop goes on.
\<close>

fun decode_loop ::
    "env \<Rightarrow> files \<Rightarrow> attachment list \<Rightarrow> saved_attachment list
       \<Rightarrow> files \<times> (error + saved_attachment list)" where
  "decode_loop E fs [] saved = (fs, Inr saved)"
| "decode_loop E fs (att # atts) saved =
     (let nm = name_or_default att
      in case url_or_empty att of
           None \<Rightarrow> (fs, Inl AttributeError)
         | Some url \<Rightarrow>
             if \<not> prefix ''data:'' url then decode_loop E fs atts saved
             else (case decode_try E fs nm url of
                     (fs', Inr r) \<Rightarrow> decode_loop E fs' atts (saved @ [r])
                   | (fs', Inl e) \<Rightarrow> decode_loop E fs' atts saved))"

definition decode_attachments ::
    "env \<Rightarrow> files \<Rightarrow> attachment list option
       \<Rightarrow> files \<times> (error + saved_attachment list)" where
  "decode_attachments E fs attachments =
     decode_loop E fs (case attachments of None \<Rightarrow> [] | Some atts \<Rightarrow> atts) []"


section \<open>Summarising attachments\<close>

text \<open>
  \<open>open(p, "r", encoding="utf-8", errors="ignore")\<close> and the text behind it. A path
  with no file raises \<open>FileNotFoundError\<close>, whose text ends in \<open>repr\<close> of the path.
\<close>

definition open_text :: "env \<Rightarrow> files \<Rightarrow> string \<Rightarrow> error + string" where
  "open_text E fs p =
     (case open_r E p of
        Some e \<Rightarrow> Inl e
      | None \<Rightarrow>
          (case fs p of
             None \<Rightarrow>
               Inl (OSError (''[Errno 2] No such file or directory: '' @ repr_path E p))
           | Some b \<Rightarrow> Inr (decode_text E b)))"

text \<open>
  \<open>next(f)\<close> on the unread text: the next line with its newline and the rest, or
  \<open>StopIteration\<close> at the end of the file.
\<close>

definition next_line :: "string \<Rightarrow> error + (string \<times> string)" where
  "next_line rest =
     (if rest = [] then Inl StopIteration
      else case find_str newline rest of
             None \<Rightarrow> Inr (rest, [])
           | Some i \<Rightarrow> Inr (take (i + 1) rest, drop (i + 1) rest))"

text \<open>\<open>[next(f).strip() for _ in range(n)]\<close>.\<close>

fun stripped_lines :: "nat \<Rightarrow> string \<Rightarrow> error + string list" where
  "stripped_lines 0 rest = Inr []"
| "stripped_lines (Suc n) rest =
     (case next_line rest of
        Inl e \<Rightarrow> Inl e
      | Inr (l, rest') \<Rightarrow>
          (case stripped_lines n rest' of
             Inl e \<Rightarrow> Inl e
           | Inr ls \<Rightarrow> Inr (strip l # ls)))"

definition line_head :: "saved_attachment \<Rightarrow> string" where
  "line_head s = ''- '' @ name s @ '' ('' @ mime s @ ''): ''"

definition previewable :: "saved_attachment \<Rightarrow> bool" where
  "previewable s =
     (prefix ''text'' (mime s) \<or> suffix ''.md'' (name s) \<or> suffix ''.txt'' (name s)
      \<or> suffix ''.json'' (name s) \<or> suffix ''.csv'' (name s))"

text \<open>The body of the \<open>try\<close> in \<open>summarize_attachment_meta\<close>: the line, or the exception.\<close>

definition summary_try :: "env \<Rightarrow> files \<Rightarrow> saved_attachment \<Rightarrow> error + string" where
  "summary_try E fs s =
     (if previewable s
      then (case open_text E fs (path s) of
              Inl e \<Rightarrow> Inl e
            | Inr txt \<Rightarrow>
                if suffix ''.csv'' (name s)
                then (case stripped_lines 3 txt of
                        Inl e \<Rightarrow> Inl e
                      | Inr ls \<Rightarrow>
                          Inr (line_head s @ ''preview: '' @ join_str newline ls))
                else Inr (line_head s @ ''preview: '' @
                          take 1000 (replace_str newline newline (take 1000 txt))))
      else Inr (line_head s @ digits (size' s) @ '' bytes''))"

definition summary_line :: "env \<Rightarrow> files \<Rightarrow> saved_attachment \<Rightarrow> string" where
  "summary_line E fs s =
     (case summary_try E fs s of
        Inr l \<Rightarrow> l
      | Inl e \<Rightarrow> line_head s @ ''(could not read preview: '' @ str_error e @ '')'')"

fun summarize_loop ::
    "env \<Rightarrow> files \<Rightarrow> saved_attachment list \<Rightarrow> string list \<Rightarrow> string list" where
  "summarize_loop E fs [] summaries = summaries"
| "summarize_loop E fs (s # ss) summaries =
     summarize_loop E fs ss (summaries @ [summary_line E fs s])"

definition summarize_attachment_meta :: "env \<Rightarrow> files \<Rightarrow> saved_attachment list \<Rightarrow> string" where
  "summarize_attachment_meta E fs saved = join_str newline (summarize_loop E fs saved [])"


section \<open>The orchestrator\<close>

definition context_note :: "int \<Rightarrow> string option \<Rightarrow> string" where
  "context_note round_num prev_readme =
     (case prev_readme of
        None \<Rightarrow> []
      | Some r \<Rightarrow>
          if round_num = 2 \<and> r \<noteq> []
          then ''\<newline>### Previous README.md:\<newline>'' @ r @
               ''\<newline>\<newline>Revise and enhance this project according to the new brief below.\<newline>''
          else [])"

definition format_rules :: string where
  "format_rules =
     ''\<newline>\<newline>### Output format rules:\<newline>'' @
     ''1. Produce a complete web app (HTML/JS/CSS inline if needed) satisfying the brief.\<newline>'' @
     ''2. Your output MUST contain two markdown code blocks ONLY: one for `index.html` and one for `README.md`.\<newline>'' @
     ''3. The `README.md` block must start on a new line immediately after the `index.html` block.\<newline>'' @
     ''4. The `README.md` must include: Overview, Setup, and Usage sections. If Round 2, describe improvements.\<newline>'' @
     ''5. Example format:\<newline>'' @
     ''   ```html\<newline>   <!DOCTYPE html>\<newline>   ...\<newline>   ```\<newline>'' @
     ''   ```markdown\<newline>   # Project README\<newline>   ...\<newline>   ```\<newline>'' @
     ''6. Do not include any other text or commentary outside of these two code blocks.\<newline>''"

definition user_prompt ::
    "env \<Rightarrow> string \<Rightarrow> string list option \<Rightarrow> string \<Rightarrow> int \<Rightarrow> string option \<Rightarrow> string" where
  "user_prompt E brief checks attachments_meta round_num prev_readme =
     ''\<newline>You are a professional web developer assistant.\<newline>\<newline>### Round\<newline>'' @
     str_int round_num @
     ''\<newline>\<newline>### Task\<newline>'' @ brief @
     ''\<newline>\<newline>'' @ context_note round_num prev_readme @
     ''\<newline>\<newline>### Attachments (if any)\<newline>'' @ attachments_meta @
     ''\<newline>\<newline>### Evaluation checks\<newline>'' @
     repr_checks E (case checks of None \<Rightarrow> [] | Some cs \<Rightarrow> cs) @
     format_rules"

text \<open>The response substituted when the external call raises.\<close>

definition fallback_html_head :: string where
  "fallback_html_head =
     ''html\<newline><html>\<newline>  <head><title>Fallback App</title></head>\<newline>  <body>\<newline>'' @
     ''    <h1>Hello (fallback)</h1>\<newline>'' @
     ''    <p>This app was generated as a fallback because the Gemini API failed. Brief: ''"

definition fallback_html_tail :: string where
  "fallback_html_tail = ''</p>\<newline>  </body>\<newline></html>\<newline>''"

definition fallback_text :: "string \<Rightarrow> string \<Rightarrow> string" where
  "fallback_text brief readme =
     ''\<newline>'' @ fence @ fallback_html_head @ brief @ fallback_html_tail @ fence @
     ''\<newline>'' @ fence @ ''markdown\<newline>'' @ readme @ ''\<newline>'' @ fence @ ''\<newline>''"

record generation_result =
  index_html :: string
  readme_md :: string
  attachments :: "saved_attachment list"

text \<open>
  \<open>generate_app_code\<close>: the files afterwards and the result, or the exception that
  leaves the function (the decoding and the extraction run outside the \<open>try\<close>).
\<close>

definition generate_app_code ::
    "env \<Rightarrow> files \<Rightarrow> string \<Rightarrow> attachment list option \<Rightarrow> string list option \<Rightarrow> int
       \<Rightarrow> string option \<Rightarrow> error + (files \<times> generation_result)" where
  "generate_app_code E fs brief atts checks round_num prev_readme =
     (case decode_attachments E fs atts of
        (fs', Inl e) \<Rightarrow> Inl e
      | (fs', Inr saved) \<Rightarrow>
          (let attachments_meta = summarize_attachment_meta E fs' saved;
               prompt = user_prompt E brief checks attachments_meta round_num prev_readme;
               text = (case generate_content E prompt of
                         GenText t \<Rightarrow> (case t of None \<Rightarrow> [] | Some x \<Rightarrow> x)
                       | GenRaised \<Rightarrow>
                           fallback_text brief
                             (generate_readme_fallback brief checks (Some attachments_meta)
                                round_num))
           in case extract_response brief checks (Some attachments_meta) round_num text of
                Inl e \<Rightarrow> Inl e
              | Inr (code_part, readme_part) \<Rightarrow>
                  Inr (fs', \<lparr>index_html = code_part, readme_md = readme_part,
                             attachments = saved\<rparr>)))"


section \<open>A concrete environment\<close>

text \<open>
  For worked examples: base64 of canonically padded input (RFC 4648; anything else is
  rejected here, the library is more lenient), scratch paths of plain file names, no
  input or output failure, files of 7-bit text, \<open>repr\<close> of strings without quotes or
  escapes, and a generator that is given by its outcome.
\<close>

definition b64_alphabet :: string where
  "b64_alphabet = ''ABCDEFGHIJKLMNOPQRSTUVWXYZabcdefghijklmnopqrstuvwxyz0123456789+/''"

definition b64_val :: "char \<Rightarrow> nat option" where
  "b64_val c = find_str [c] b64_alphabet"

fun b64_groups :: "string \<Rightarrow> error + bytes" where
  "b64_groups [] = Inr []"
| "b64_groups (a # b # c # d # rest) =
     (case (b64_val a, b64_val b) of
        (Some x, Some y) \<Rightarrow>
          (let b1 = char_of (x * 4 + y div 16)
           in if c = CHR ''=''
              then (if d = CHR ''='' \<and> rest = [] then Inr [b1] else Inl Base64Error)
              else (case b64_val c of
                      None \<Rightarrow> Inl Base64Error
                    | Some z \<Rightarrow>
                        (let b2 = char_of ((y mod 16) * 16 + z div 4)
                         in if d = CHR ''=''
                            then (if rest = [] then Inr [b1, b2] else Inl Base64Error)
                            else (case b64_val d of
                                    None \<Rightarrow> Inl Base64Error
                                  | Some w \<Rightarrow>
                                      (case b64_groups rest of
                                         Inl e \<Rightarrow> Inl e
                                       | Inr bs \<Rightarrow>
                                           Inr (b1 # b2 # char_of ((z mod 4) * 64 + w) # bs))))))
      | _ \<Rightarrow> Inl Base64Error)"
| "b64_groups _ = Inl Base64Error"

definition plain_env :: "gen_outcome \<Rightarrow> env" where
  "plain_env outcome =
     \<lparr>b64decode = b64_groups,
      tmp_path = (\<lambda>n. ''/tmp/llm_attachments/'' @ n),
      open_wb = (\<lambda>p. None),
      write_err = (\<lambda>p d. None),
      open_r = (\<lambda>p. None),
      decode_text = (\<lambda>b. b),
      repr_path = (\<lambda>p. [CHR 0x27] @ p @ [CHR 0x27]),
      repr_checks =(\<lambda>cs. ''['' @ join_str '', '' (map (\<lambda>c. [CHR 0x27] @ c @ [CHR 0x27]) cs) @ '']''),
      generate_content = (\<lambda>prompt. outcome)\<rparr>"


section \<open>Well-formed segments\<close>

text \<open>
  A segment of a response that holds no fence and does not end in a backtick: a fence
  written after it starts exactly where the segment ends.
\<close>

definition plain_segment :: "string \<Rightarrow> bool" where
  "plain_segment s = (\<not> contains_str fence s \<and> \<not> suffix ''`'' s)"


section \<open>Facts about fences, splitting and stripping\<close>

lemma find_str_fence_head: "find_str fence (fence @ R) = Some 0"
  by (simp add: fence_def)

lemma find_str_fence_skip:
  "c \<noteq> CHR ''`'' \<Longrightarrow> find_str fence (c # s) = map_option Suc (find_str fence s)"
  by (simp add: fence_def)

lemma prefix_fence_into:
  assumes "\<not> prefix fence (c # P)" and "\<not> suffix ''`'' (c # P)"
  shows "\<not> prefix fence (c # P @ fence @ R)"
proof (cases P)
  case Nil
  with assms show ?thesis by (auto simp: fence_def suffix_def)
next
  case (Cons d P')
  show ?thesis
  proof (cases P')
    case Nil
    with Cons assms show ?thesis by (auto simp: fence_def suffix_def)
  next
    case (Cons e P'')
    with \<open>P = d # P'\<close> assms show ?thesis by (auto simp: fence_def)
  qed
qed

lemma plain_segment_tl: "plain_segment (c # P) \<Longrightarrow> plain_segment P"
  by (auto simp: plain_segment_def contains_str_def suffix_Cons split: if_splits)

lemma find_after_segment:
  "plain_segment P \<Longrightarrow> find_str fence (P @ fence @ R) = Some (length P)"
proof (induction P)
  case Nil
  show ?case by (simp add: find_str_fence_head)
next
  case (Cons c P)
  from Cons.prems have np: "\<not> prefix fence (c # P)"
    by (auto simp: plain_segment_def contains_str_def split: if_splits)
  from Cons.prems have ns: "\<not> suffix ''`'' (c # P)"
    by (simp add: plain_segment_def)
  have "\<not> prefix fence (c # P @ fence @ R)"
    using np ns by (rule prefix_fence_into)
  moreover have "find_str fence (P @ fence @ R) = Some (length P)"
    using Cons.IH Cons.prems plain_segment_tl by blast
  ultimately show ?case by simp
qed

lemma rfind_at_end: "rfind_str fence (X @ fence) = Some (length X)"
  by (induction X) (simp_all add: fence_def)

lemma split_after_segment:
  "plain_segment P \<Longrightarrow> split_str fence (P @ fence @ R) = P # split_str fence R"
  by (subst split_str.simps) (simp add: find_after_segment, simp add: fence_def)

lemma split_str_nonempty: "sep \<noteq> [] \<Longrightarrow> split_str sep s \<noteq> []"
  by (subst split_str.simps) (simp split: option.splits)

lemma find_char_first: "c \<notin> set xs \<Longrightarrow> find_str [c] (xs @ c # ys) = Some (length xs)"
  by (induction xs) auto

lemma is_space_newline: "is_space (CHR ''\<newline>'')"
  by (simp add: is_space_def)

lemma strip_newline_front: "strip (newline @ b) = strip b"
  by (simp add: strip_def lstrip_def newline_def is_space_newline)

lemma length_fence: "length fence = 3"
  by (simp add: fence_def)

lemma strip_wrapped_block:
  assumes tag: "CHR ''\<newline>'' \<notin> set tag" and body: "tag = [] \<or> body \<noteq> []"
  shows "strip_code_block (fence @ tag @ newline @ body @ fence) = Inr (strip body)"
proof -
  let ?text = "fence @ tag @ newline @ body @ fence"
  have first: "find_str fence ?text = Some 0"
    by (rule find_str_fence_head)
  have len: "\<not> length ?text \<le> 0 + 3"
    by (simp add: length_fence newline_def)
  have last: "rfind_str fence ?text = Some (3 + length tag + 1 + length body)"
    using rfind_at_end [of "fence @ tag @ newline @ body"]
    by (simp add: length_fence newline_def)
  have dr: "drop 3 ?text = tag @ newline @ body @ fence"
    by (simp add: length_fence)
  show ?thesis
  proof (cases tag)
    case Nil
    have at: "?text ! (0 + 3) = CHR ''\<newline>''"
      using Nil by (simp add: fence_def newline_def)
    have "take (Suc (length body)) (drop 3 ?text) = newline @ body"
      unfolding dr using Nil by (simp add: newline_def)
    then show ?thesis
      unfolding strip_code_block_def first using len at last Nil
      by (simp add: strip_newline_front Let_def)
  next
    case (Cons t ts)
    with tag have t: "t \<noteq> CHR ''\<newline>''" by auto
    from Cons body have nonempty: "body \<noteq> []" by simp
    have at: "?text ! (0 + 3) \<noteq> CHR ''\<newline>''"
      using Cons t by (simp add: fence_def)
    have "find_str newline (tag @ CHR ''\<newline>'' # body @ fence) = Some (length tag)"
      unfolding newline_def using tag by (rule find_char_first)
    then have nl: "find_from newline ?text (0 + 3) = Some (3 + length tag)"
      unfolding find_from_def using dr by (simp add: length_fence newline_def)
    have "drop (3 + length tag + 1) ?text = body @ fence"
      by (simp add: length_fence newline_def)
    then have "take (length body) (drop (3 + length tag + 1) ?text) = body"
      by simp
    then show ?thesis
      unfolding strip_code_block_def first using len at last nl nonempty
      by (simp add: Let_def)
  qed
qed

lemma find_fence_exists: "find_str fence (U @ fence @ V) \<noteq> None"
  by (induction U) (simp_all add: fence_def)

lemma prefix_fence_across:
  "c \<noteq> CHR ''`'' \<Longrightarrow> prefix fence (x # xs @ c # ys) = prefix fence (x # xs)"
proof (cases xs)
  case Nil
  assume "c \<noteq> CHR ''`''"
  with Nil show ?thesis by (auto simp: fence_def)
next
  case (Cons d xs')
  assume c: "c \<noteq> CHR ''`''"
  show ?thesis
  proof (cases xs')
    case Nil
    with Cons c show ?thesis by (auto simp: fence_def)
  next
    case (Cons e xs'')
    with \<open>xs = d # xs'\<close> show ?thesis by (auto simp: fence_def)
  qed
qed

lemma no_fence_across:
  "c \<noteq> CHR ''`'' \<Longrightarrow>
     find_str fence (xs @ c # ys) = None \<longleftrightarrow> find_str fence xs = None \<and> find_str fence ys = None"
proof (induction xs)
  case Nil
  then show ?case by (simp add: find_str_fence_skip) (simp add: fence_def)
next
  case (Cons x xs)
  have "prefix fence (x # xs @ c # ys) = prefix fence (x # xs)"
    using Cons.prems by (rule prefix_fence_across)
  with Cons show ?case by auto
qed

lemma strip_nonempty: "\<not> is_space c \<Longrightarrow> strip (c # xs) \<noteq> []"
  by (simp add: strip_def lstrip_def rstrip_def dropWhile_eq_Nil_conv)

lemma fallback_html_plain:
  assumes "\<not> contains_str fence brief"
  shows "plain_segment (fallback_html_head @ brief @ fallback_html_tail)"
proof -
  obtain H0 where H: "fallback_html_head = H0 @ '' ''" and H0: "find_str fence H0 = None"
    by (simp add: fallback_html_head_def fence_def)
  obtain T0 where T: "fallback_html_tail = CHR ''<'' # T0 @ ''\<newline>''" and T0: "find_str fence (T0 @ ''\<newline>'') = None"
    by (simp add: fallback_html_tail_def fence_def)
  from assms have B: "find_str fence brief = None"
    by (simp add: contains_str_def)
  have "find_str fence (brief @ CHR ''<'' # (T0 @ ''\<newline>'')) = None"
    using B T0 by (simp add: no_fence_across)
  then have "find_str fence (H0 @ CHR '' '' # (brief @ CHR ''<'' # (T0 @ ''\<newline>''))) = None"
    using H0 by (simp add: no_fence_across)
  then have "\<not> contains_str fence (fallback_html_head @ brief @ fallback_html_tail)"
    by (simp add: H T contains_str_def)
  moreover have "\<not> suffix ''`'' (fallback_html_head @ brief @ fallback_html_tail)"
    by (simp add: T suffix_def)
  ultimately show ?thesis by (simp add: plain_segment_def)
qed

lemma plain_newline: "plain_segment ''\<newline>''"
  by (simp add: plain_segment_def contains_str_def fence_def suffix_def)

lemma readme_starts: "\<exists>R. generate_readme_fallback brief checks meta r = CHR ''#'' # R"
  by (simp add: generate_readme_fallback_def readme_title_def Let_def)

lemma split_str_length: "sep \<noteq> [] \<Longrightarrow> 1 \<le> length (split_str sep s)"
  using split_str_nonempty [of sep s] by (cases "split_str sep s") simp_all

lemma find_fence_after_plain:
  "CHR ''`'' \<notin> set P \<Longrightarrow> find_str fence Y = Some j \<Longrightarrow>
     find_str fence (P @ Y) = Some (length P + j)"
proof (induction P)
  case Nil
  then show ?case by simp
next
  case (Cons c P)
  then have "c \<noteq> CHR ''`''" and "find_str fence (P @ Y) = Some (length P + j)"
    by auto
  then show ?case
    by (simp add: find_str_fence_skip del: find_str.simps)
qed

lemma fence_nonempty: "fence \<noteq> []"
  by (simp add: fence_def)

lemma split_at_found:
  "find_str fence s = Some i \<Longrightarrow>
     split_str fence s = take i s # split_str fence (drop (i + 3) s)"
  by (subst split_str.simps) (simp add: fence_nonempty length_fence)

lemma split_plain_prefix:
  assumes "CHR ''`'' \<notin> set P" and "find_str fence Y = Some j"
  shows "split_str fence (P @ Y) = (P @ take j Y) # split_str fence (drop (j + 3) Y)"
proof -
  have "find_str fence (P @ Y) = Some (length P + j)"
    using assms by (simp add: find_fence_after_plain)
  then have "split_str fence (P @ Y)
             = take (length P + j) (P @ Y) # split_str fence (drop (length P + j + 3) (P @ Y))"
    by (rule split_at_found)
  then show ?thesis by simp
qed

lemma extract_two_parts:
  assumes parts: "split_str fence t = p0 # (tag1 @ newline @ body1) # p2 # (tag2 @ newline @ body2) # ps"
      and ps: "ps \<noteq> []"
      and tag1: "CHR ''\<newline>'' \<notin> set tag1" and body1: "tag1 = [] \<or> body1 \<noteq> []"
      and tag2: "CHR ''\<newline>'' \<notin> set tag2" and body2: "tag2 = [] \<or> body2 \<noteq> []"
  shows "extract_response brief checks meta r t = Inr (strip body1, strip body2)"
proof -
  from ps have five: "5 \<le> length (split_str fence t)"
    unfolding parts by (cases ps) simp_all
  have one: "split_str fence t ! 1 = tag1 @ newline @ body1"
    and three: "split_str fence t ! 3 = tag2 @ newline @ body2"
    unfolding parts by (simp_all add: numeral_3_eq_3)
  have code: "strip_code_block (fence @ (tag1 @ newline @ body1) @ fence) = Inr (strip body1)"
    using strip_wrapped_block [OF tag1 body1] by simp
  have doc: "strip_code_block (fence @ (tag2 @ newline @ body2) @ fence) = Inr (strip body2)"
    using strip_wrapped_block [OF tag2 body2] by simp
  show ?thesis
    unfolding extract_response_def Let_def one three
    using five by (simp only: code doc if_True sum.case)
qed

lemma extract_fallback_text:
  assumes brief: "\<not> contains_str fence brief"
  shows "\<exists>readme. extract_response brief checks meta r
                     (fallback_text brief (generate_readme_fallback brief checks meta' r))
                   = Inr (strip (''<html>'' @ drop 11 fallback_html_head @ brief @ fallback_html_tail),
                          readme)
                 \<and> readme \<noteq> []"
proof -
  obtain R where R: "generate_readme_fallback brief checks meta' r = CHR ''#'' # R"
    using readme_starts by blast
  let ?html = "fallback_html_head @ brief @ fallback_html_tail"
  let ?Y = "R @ ''\<newline>'' @ fence @ ''\<newline>''"
  let ?rest = "''markdown\<newline>#'' @ ?Y"
  define body1 where "body1 = ''<html>'' @ drop 11 fallback_html_head @ brief @ fallback_html_tail"
  have whole: "fallback_text brief (generate_readme_fallback brief checks meta' r)
              = ''\<newline>'' @ fence @ ?html @ fence @ ''\<newline>'' @ fence @ ?rest"
    by (simp add: fallback_text_def R)
  obtain j where j: "find_str fence ?Y = Some j"
    using find_fence_exists [of "R @ ''\<newline>''" "''\<newline>''"] by auto
  define body2 where "body2 = CHR ''#'' # take j ?Y"
  define ps where "ps = split_str fence (drop (j + 3) ?Y)"
  have rest: "split_str fence ?rest = (''markdown\<newline>#'' @ take j ?Y) # ps"
    unfolding ps_def using j by (intro split_plain_prefix) simp_all
  have html: "?html = ''html'' @ newline @ body1"
    by (simp add: fallback_html_head_def newline_def body1_def)
  have md: "''markdown\<newline>#'' @ take j ?Y = ''markdown'' @ newline @ body2"
    by (simp add: newline_def body2_def)
  have "split_str fence (fallback_text brief (generate_readme_fallback brief checks meta' r))
        = ''\<newline>'' # ?html # ''\<newline>'' # (''markdown\<newline>#'' @ take j ?Y) # ps"
    unfolding whole
    by (simp only: split_after_segment plain_newline fallback_html_plain [OF brief] rest)
  then have parts:
    "split_str fence (fallback_text brief (generate_readme_fallback brief checks meta' r))
       = ''\<newline>'' # (''html'' @ newline @ body1) # ''\<newline>''
         # (''markdown'' @ newline @ body2) # ps"
    by (simp only: html md)
  have "ps \<noteq> []"
    unfolding ps_def by (rule split_str_nonempty) (rule fence_nonempty)
  with parts have "extract_response brief checks meta r
          (fallback_text brief (generate_readme_fallback brief checks meta' r))
        = Inr (strip body1, strip body2)"
    by (rule extract_two_parts) (simp_all add: body1_def body2_def)
  moreover have "strip body2 \<noteq> []"
    unfolding body2_def by (rule strip_nonempty) (simp add: is_space_def)
  ultimately show ?thesis unfolding body1_def by blast
qed

lemma extract_short_response:
  "length (split_str fence t) < 5 \<Longrightarrow>
     extract_response brief checks meta r t
     = (case strip_code_block t of
          Inl e \<Rightarrow> Inl e
        | Inr code_part \<Rightarrow> Inr (code_part, generate_readme_fallback brief checks meta r))"
  by (simp add: extract_response_def Let_def)


text \<open>
  The block stripping raises exactly on a text whose first fence is its end; the
  extractor raises exactly on such a response of fewer than five segments.
\<close>

lemma strip_code_block_raises_iff:
  "strip_code_block t = Inl e \<longleftrightarrow>
     e = IndexError \<and> (\<exists>i. find_str fence t = Some i \<and> i + 3 = length t)"
proof (cases "find_str fence t")
  case None
  then show ?thesis by (simp add: strip_code_block_def)
next
  case (Some i)
  then have "i + 3 \<le> length t"
    using find_str_bound [of fence t i] by (simp add: length_fence)
  with Some show ?thesis
    by (auto simp: strip_code_block_def Let_def split: option.splits)
qed

lemma strip_wrapped_returns: "\<exists>r. strip_code_block (fence @ p @ fence) = Inr r"
proof (cases "strip_code_block (fence @ p @ fence)")
  case (Inl e)
  then have "\<exists>i. find_str fence (fence @ p @ fence) = Some i \<and> i + 3 = length (fence @ p @ fence)"
    by (simp add: strip_code_block_raises_iff)
  then show ?thesis
    by (simp add: find_str_fence_head length_fence)
next
  case (Inr r)
  then show ?thesis by blast
qed

lemma extract_response_raises_iff:
  "extract_response brief checks meta r t = Inl e \<longleftrightarrow>
     e = IndexError \<and> length (split_str fence t) < 5
     \<and> (\<exists>i. find_str fence t = Some i \<and> i + 3 = length t)"
proof (cases "5 \<le> length (split_str fence t)")
  case True
  obtain c where c: "strip_code_block (fence @ split_str fence t ! 1 @ fence) = Inr c"
    using strip_wrapped_returns by blast
  obtain d where d: "strip_code_block (fence @ split_str fence t ! 3 @ fence) = Inr d"
    using strip_wrapped_returns by blast
  from True show ?thesis
    unfolding extract_response_def Let_def c d by simp
next
  case False
  then have "extract_response brief checks meta r t = Inl e \<longleftrightarrow> strip_code_block t = Inl e"
    by (simp add: extract_response_def Let_def split: sum.splits)
  with False show ?thesis
    by (auto simp: strip_code_block_raises_iff)
qed


section \<open>Facts about the decoder\<close>


lemma split_once_first:
  "c \<notin> set h \<Longrightarrow> split_once [c] (h @ c # p) = [h, p]"
  by (simp add: split_once_def find_char_first)

lemma split_str_first:
  "c \<notin> set h \<Longrightarrow> split_str [c] (h @ c # p) = h # split_str [c] p"
  by (subst split_str.simps) (simp add: find_char_first)

lemma replace_absent: "find_str old s = None \<Longrightarrow> replace_str old new s = s"
  by (subst replace_str.simps) (cases s; auto split: if_splits)

lemma replace_data_prefix:
  "replace_str ''data:'' [] (''data:'' @ m) = replace_str ''data:'' [] m"
  by (subst replace_str.simps) simp

lemma decode_try_data_uri:
  assumes comma: "CHR '','' \<notin> set m" and semi: "CHR '';'' \<notin> set m"
      and nodata: "\<not> contains_str ''data:'' m"
      and params: "CHR '','' \<notin> set params"
      and b64: "b64decode E payload = Inr data"
      and opened: "open_wb E (tmp_path E nm) = None"
      and written: "write_err E (tmp_path E nm) data = None"
  shows "decode_try E fs nm (''data:'' @ m @ '';'' @ params @ '','' @ payload)
         = (fs(tmp_path E nm \<mapsto> data),
            Inr \<lparr>name = nm, path = tmp_path E nm, mime = m, size' = length data\<rparr>)"
proof -
  have "CHR '','' \<notin> set (''data:'' @ m @ '';'' @ params)"
    using comma params by simp
  then have "split_once '','' ((''data:'' @ m @ '';'' @ params) @ CHR '','' # payload)
             = [''data:'' @ m @ '';'' @ params, payload]"
    by (rule split_once_first)
  then have one: "split_once '','' (''data:'' @ m @ '';'' @ params @ '','' @ payload)
                  = [''data:'' @ m @ '';'' @ params, payload]"
    by simp
  have "CHR '';'' \<notin> set (''data:'' @ m)"
    using semi by simp
  then have "split_str '';'' ((''data:'' @ m) @ CHR '';'' # params)
             = (''data:'' @ m) # split_str '';'' params"
    by (rule split_str_first)
  then have two: "split_str '';'' (''data:'' @ m @ '';'' @ params)
                  = (''data:'' @ m) # split_str '';'' params"
    by simp
  from nodata have "replace_str ''data:'' [] m = m"
    by (simp add: replace_absent contains_str_def)
  then have three: "replace_str ''data:'' [] (''data:'' @ m) = m"
    by (simp only: replace_data_prefix)
  show ?thesis
    unfolding decode_try_def
    by (simp only: one two list.case three Let_def b64 sum.case opened written option.case)
qed

lemma decode_loop_append:
  "decode_loop E fs (xs @ ys) saved
   = (case decode_loop E fs xs saved of
        (fs1, Inr s1) \<Rightarrow> decode_loop E fs1 ys s1
      | (fs1, Inl e) \<Rightarrow> (fs1, Inl e))"
  by (induction xs arbitrary: fs saved)
     (auto simp: Let_def split: prod.splits sum.splits option.splits)

lemma decode_loop_skip:
  assumes "url_or_empty att = Some url" and "\<not> prefix ''data:'' url"
  shows "decode_loop E fs (att # rest) saved = decode_loop E fs rest saved"
  using assms by (simp add: Let_def)

lemma decode_loop_drop:
  assumes "url_or_empty att = Some url" and "prefix ''data:'' url"
      and "decode_try E fs (name_or_default att) url = (fs', Inl e)"
  shows "decode_loop E fs (att # rest) saved = decode_loop E fs' rest saved"
  using assms by (simp add: Let_def)

lemma decode_loop_null_url:
  "url_or_empty att = None \<Longrightarrow> decode_loop E fs (att # rest) saved = (fs, Inl AttributeError)"
  by (simp add: Let_def)

lemma decode_loop_data_uri:
  assumes url: "att_url att = Text (''data:'' @ m @ '';'' @ params @ '','' @ payload)"
      and comma: "CHR '','' \<notin> set m" and semi: "CHR '';'' \<notin> set m"
      and nodata: "\<not> contains_str ''data:'' m"
      and params: "CHR '','' \<notin> set params"
      and b64: "b64decode E payload = Inr data"
      and opened: "open_wb E (tmp_path E (name_or_default att)) = None"
      and written: "write_err E (tmp_path E (name_or_default att)) data = None"
  shows "decode_loop E fs (att # rest) saved
         = decode_loop E (fs(tmp_path E (name_or_default att) \<mapsto> data)) rest
             (saved @ [\<lparr>name = name_or_default att, path = tmp_path E (name_or_default att),
                        mime = m, size' = length data\<rparr>])"
proof -
  have u: "url_or_empty att = Some (''data:'' @ m @ '';'' @ params @ '','' @ payload)"
    by (simp add: url_or_empty_def url)
  have p: "prefix ''data:'' (''data:'' @ m @ '';'' @ params @ '','' @ payload)"
    by simp
  have "decode_try E fs (name_or_default att) (''data:'' @ m @ '';'' @ params @ '','' @ payload)
        = (fs(tmp_path E (name_or_default att) \<mapsto> data),
           Inr \<lparr>name = name_or_default att, path = tmp_path E (name_or_default att),
                mime = m, size' = length data\<rparr>)"
    using comma semi nodata params b64 opened written
    by (rule decode_try_data_uri)
  with p u show ?thesis by (simp add: Let_def del: append.simps)
qed


section \<open>Facts about the summarizer\<close>

lemma summarize_loop_map:
  "summarize_loop E fs ss summaries = summaries @ map (summary_line E fs) ss"
  by (induction ss arbitrary: summaries) simp_all










lemma join_str_Cons: "join_str sep (c # cs) = c @ concat (map (\<lambda>x. sep @ x) cs)"
  by (induction cs arbitrary: c) simp_all


section \<open>Claims about the orchestrator's result\<close>

text \<open>
  Claim C1, as amended. When the decoder has returned, the external call raises and the
  brief holds no triple backtick, \<open>generate_app_code\<close> returns, and both
  \<open>files["index.html"]\<close> and \<open>files["README.md"]\<close> are non-empty strings, for every
  attachments, checks, round number and previous README. The fallback response then
  splits into the fallback page and the fallback documentation, whatever the checks and
  the attachment summary hold.
\<close>

theorem generate_app_code_fallback_nonempty:
  assumes dec: "decode_attachments E fs atts = (fs', Inr saved)"
      and raised: "generate_content E
             (user_prompt E brief checks (summarize_attachment_meta E fs' saved)
                round_num prev_readme) = GenRaised"
      and brief: "\<not> contains_str fence brief"
  shows "\<exists>code readme.
           generate_app_code E fs brief atts checks round_num prev_readme
             = Inr (fs', \<lparr>index_html = code, readme_md = readme, attachments = saved\<rparr>)
           \<and> code \<noteq> [] \<and> readme \<noteq> []"
proof -
  let ?meta = "summarize_attachment_meta E fs' saved"
  obtain readme where
    ex: "extract_response brief checks (Some ?meta) round_num
           (fallback_text brief (generate_readme_fallback brief checks (Some ?meta) round_num))
         = Inr (strip (''<html>'' @ drop 11 fallback_html_head @ brief @ fallback_html_tail), readme)"
    and readme: "readme \<noteq> []"
    using extract_fallback_text [OF brief] by blast
  have code: "strip (''<html>'' @ drop 11 fallback_html_head @ brief @ fallback_html_tail) \<noteq> []"
    using strip_nonempty [of "CHR ''<''"] by (simp add: is_space_def)
  have "generate_app_code E fs brief atts checks round_num prev_readme
        = Inr (fs', \<lparr>index_html = strip (''<html>'' @ drop 11 fallback_html_head @ brief @ fallback_html_tail),
                    readme_md = readme, attachments = saved\<rparr>)"
    unfolding generate_app_code_def dec by (simp add: raised ex Let_def)
  with code readme show ?thesis by blast
qed

theorem generate_app_code_fallback_nonempty_witness:
  "decode_attachments (plain_env GenRaised) Map.empty None = (Map.empty, Inr [])
   \<and> generate_content (plain_env GenRaised)
        (user_prompt (plain_env GenRaised) ''make a page'' None
           (summarize_attachment_meta (plain_env GenRaised) Map.empty []) 1 None) = GenRaised
   \<and> \<not> contains_str fence ''make a page''
   \<and> (\<exists>code readme.
          generate_app_code (plain_env GenRaised) Map.empty ''make a page'' None None 1 None
            = Inr (Map.empty, \<lparr>index_html = code, readme_md = readme, attachments = []\<rparr>)
          \<and> code \<noteq> [] \<and> readme \<noteq> [])"
proof -
  have h1: "decode_attachments (plain_env GenRaised) Map.empty None = (Map.empty, Inr [])"
    by (simp add: decode_attachments_def)
  have h2: "generate_content (plain_env GenRaised)
        (user_prompt (plain_env GenRaised) ''make a page'' None
           (summarize_attachment_meta (plain_env GenRaised) Map.empty []) 1 None) = GenRaised"
    by (simp add: plain_env_def)
  have h3: "\<not> contains_str fence ''make a page''"
    by (simp add: contains_str_def fence_def)
  show ?thesis
    using h1 h2 h3 generate_app_code_fallback_nonempty [OF h1 h2 h3] by blast
qed


text \<open>
  Against claim C1 as stated: when the generator answers with the empty string, the
  call returns and \<open>files["index.html"]\<close> is empty; when the generator raises and the
  brief holds a triple backtick, the call returns and \<open>files["README.md"]\<close> is empty.
\<close>

theorem generate_app_code_empty_counterexample:
  "map_sum id (index_html \<circ> snd)
     (generate_app_code (plain_env (GenText (Some []))) Map.empty ''make a page'' None None 1 None)
   = Inr []
   \<and> map_sum id (readme_md \<circ> snd)
       (generate_app_code (plain_env GenRaised) Map.empty ''use ``` fences'' None None 1 None)
     = Inr []"
  by code_simp


section \<open>Claims about the extractor\<close>

text \<open>
  Claim C2: the extractor returns normally on every input. It does not: on a response
  that is a single fence, \<open>_strip_code_block\<close> reads \<open>text[start]\<close> one past the end,
  \<open>IndexError\<close> is raised, nothing catches it, and it leaves \<open>generate_app_code\<close>.
  (\<open>extract_response_raises_iff\<close> has all the responses on which this happens.)
\<close>

theorem strip_code_block_raises:
  "strip_code_block ''```'' = Inl IndexError
   \<and> extract_response brief checks meta r ''```'' = Inl IndexError
   \<and> generate_app_code (plain_env (GenText (Some ''```''))) Map.empty ''make a page'' None None 1 None
       = Inl IndexError"
  by (simp add: strip_code_block_def extract_response_def split_str.simps fence_def
        generate_app_code_def plain_env_def decode_attachments_def)


text \<open>
  Claim C3, as amended. Let a response be \<open>pre\<close>, a fence, \<open>tag1\<close>, a newline,
  \<open>body1\<close>, a fence, \<open>mid\<close>, a fence, \<open>tag2\<close>, a newline, \<open>body2\<close>, a fence and
  \<open>post\<close>, where no fence occurs inside \<open>pre\<close>, \<open>mid\<close> or the two blocks and none of
  them ends in a backtick, the tags hold no newline, and each block has no tag or a
  non-empty body. Then the extractor returns \<open>body1\<close> as source and \<open>body2\<close> as
  documentation, each whitespace-trimmed, without the tags.
\<close>

theorem extract_two_blocks:
  assumes "plain_segment pre" and "plain_segment (tag1 @ newline @ body1)"
      and "plain_segment mid" and "plain_segment (tag2 @ newline @ body2)"
      and "CHR ''\<newline>'' \<notin> set tag1" and "CHR ''\<newline>'' \<notin> set tag2"
      and "tag1 = [] \<or> body1 \<noteq> []" and "tag2 = [] \<or> body2 \<noteq> []"
  shows "extract_response brief checks meta r
           (pre @ fence @ (tag1 @ newline @ body1) @ fence @ mid
              @ fence @ (tag2 @ newline @ body2) @ fence @ post)
         = Inr (strip body1, strip body2)"
proof -
  have "split_str fence
          (pre @ fence @ (tag1 @ newline @ body1) @ fence @ mid
             @ fence @ (tag2 @ newline @ body2) @ fence @ post)
        = pre # (tag1 @ newline @ body1) # mid # (tag2 @ newline @ body2) # split_str fence post"
    using assms(1-4) by (simp only: split_after_segment)
  moreover have "split_str fence post \<noteq> []"
    by (rule split_str_nonempty) (rule fence_nonempty)
  ultimately show ?thesis
    using assms(5) assms(7) assms(6) assms(8) by (rule extract_two_parts)
qed

theorem extract_two_blocks_witness:
  "plain_segment [] \<and> plain_segment (''html'' @ newline @ ''<p>hi</p>\<newline>'')
   \<and> plain_segment ''\<newline>'' \<and> plain_segment (''markdown'' @ newline @ ''# Doc\<newline>'')
   \<and> CHR ''\<newline>'' \<notin> set ''html'' \<and> CHR ''\<newline>'' \<notin> set ''markdown''
   \<and> (''html'' = [] \<or> ''<p>hi</p>\<newline>'' \<noteq> []) \<and> (''markdown'' = [] \<or> ''# Doc\<newline>'' \<noteq> [])
   \<and> extract_response ''b'' None None 1
         ''```html\<newline><p>hi</p>\<newline>```\<newline>```markdown\<newline># Doc\<newline>```''
       = Inr (''<p>hi</p>'', ''# Doc'')"
proof -
  have h1: "plain_segment []" and h2: "plain_segment (''html'' @ newline @ ''<p>hi</p>\<newline>'')"
    and h3: "plain_segment ''\<newline>''" and h4: "plain_segment (''markdown'' @ newline @ ''# Doc\<newline>'')"
    by (simp_all add: plain_segment_def contains_str_def fence_def newline_def suffix_def)
  have h5: "CHR ''\<newline>'' \<notin> set ''html''" and h6: "CHR ''\<newline>'' \<notin> set ''markdown''"
    and h7: "''html'' = [] \<or> ''<p>hi</p>\<newline>'' \<noteq> []" and h8: "''markdown'' = [] \<or> ''# Doc\<newline>'' \<noteq> []"
    by simp_all
  have s1: "strip ''<p>hi</p>\<newline>'' = ''<p>hi</p>''" and s2: "strip ''# Doc\<newline>'' = ''# Doc''"
    by (simp_all add: strip_def lstrip_def rstrip_def is_space_def)
  have "extract_response ''b'' None None 1
         ''```html\<newline><p>hi</p>\<newline>```\<newline>```markdown\<newline># Doc\<newline>```''
       = Inr (''<p>hi</p>'', ''# Doc'')"
    using extract_two_blocks [OF h1 h2 h3 h4 h5 h6 h7 h8, of "''b''" None None 1 "[]"]
    by (simp add: s1 s2 fence_def newline_def)
  with h1 h2 h3 h4 h5 h6 h7 h8 show ?thesis by blast
qed


text \<open>
  Against claim C3 as stated: a block with a language tag and an empty body is returned
  whole, fences and tag included, where its inner content is the empty string.
\<close>

theorem extract_empty_block_counterexample:
  "extract_response ''b'' None None 1
     ''```html\<newline>```\<newline>```markdown\<newline># Doc\<newline>```''
   = Inr (''```html\<newline>```'', ''# Doc'')
   \<and> ''```html\<newline>```'' \<noteq> strip []"
  by (simp add: extract_response_def split_str.simps fence_def strip_code_block_def
        find_from_def newline_def strip_def lstrip_def rstrip_def is_space_def)


text \<open>
  Claim C4: a response with fewer than five segments gives the stripped response and
  the fallback documentation. The response \<open><p>hi</p>\<close>, newline, fence has two
  segments, and the extractor raises \<open>IndexError\<close> where the claim has it return.
  (Where the block stripping returns, \<open>extract_short_response\<close> gives the claimed
  pair.)
\<close>

theorem extract_single_fence_raises:
  "length (split_str fence ''<p>hi</p>\<newline>```'') = 2
   \<and> extract_response brief checks meta r ''<p>hi</p>\<newline>```'' = Inl IndexError"
  by (simp add: strip_code_block_def extract_response_def split_str.simps fence_def)


section \<open>Claims about the decoder\<close>

text \<open>
  Claim C5. For an attachment whose url is \<open>data:\<close>, a mime type, a semicolon, the
  parameters (\<open>base64\<close>), a comma and a payload, with no comma, semicolon or \<open>data:\<close>
  in the mime type, whose payload decodes and whose file can be written: the loop
  writes exactly the decoded bytes at the scratch path of the name, appends the record
  with that path, the mime type and the number of decoded bytes as size, and goes on
  with the remaining attachments. Called on this attachment alone, the decoder returns
  that file and that record.
\<close>

theorem decode_valid_data_uri:
  assumes "att_url att = Text (''data:'' @ m @ '';'' @ params @ '','' @ payload)"
      and "CHR '','' \<notin> set m" and "CHR '';'' \<notin> set m"
      and "\<not> contains_str ''data:'' m"
      and "CHR '','' \<notin> set params"
      and "b64decode E payload = Inr data"
      and "open_wb E (tmp_path E (name_or_default att)) = None"
      and "write_err E (tmp_path E (name_or_default att)) data = None"
  shows "decode_loop E fs (att # rest) saved
         = decode_loop E (fs(tmp_path E (name_or_default att) \<mapsto> data)) rest
             (saved @ [\<lparr>name = name_or_default att, path = tmp_path E (name_or_default att),
                        mime = m, size' = length data\<rparr>])
       \<and> decode_attachments E fs (Some [att])
         = (fs(tmp_path E (name_or_default att) \<mapsto> data),
            Inr [\<lparr>name = name_or_default att, path = tmp_path E (name_or_default att),
                  mime = m, size' = length data\<rparr>])"
  using decode_loop_data_uri [OF assms] by (simp add: decode_attachments_def)

theorem decode_valid_data_uri_witness:
  "att_url \<lparr>att_name = Some ''a.txt'', att_url = Text ''data:text/plain;base64,aGVsbG8=''\<rparr>
     = Text (''data:'' @ ''text/plain'' @ '';'' @ ''base64'' @ '','' @ ''aGVsbG8='')
   \<and> CHR '','' \<notin> set ''text/plain'' \<and> CHR '';'' \<notin> set ''text/plain''
   \<and> \<not> contains_str ''data:'' ''text/plain''
   \<and> CHR '','' \<notin> set ''base64''
   \<and> b64decode (plain_env GenRaised) ''aGVsbG8='' = Inr ''hello''
   \<and> open_wb (plain_env GenRaised) ''/tmp/llm_attachments/a.txt'' = None
   \<and> write_err (plain_env GenRaised) ''/tmp/llm_attachments/a.txt'' ''hello'' = None
   \<and> decode_attachments (plain_env GenRaised) Map.empty
         (Some [\<lparr>att_name = Some ''a.txt'', att_url = Text ''data:text/plain;base64,aGVsbG8=''\<rparr>])
       = ([''/tmp/llm_attachments/a.txt'' \<mapsto> ''hello''],
          Inr [\<lparr>name = ''a.txt'', path = ''/tmp/llm_attachments/a.txt'', mime = ''text/plain'',
            size' = 5\<rparr>])"
proof -
  let ?att = "\<lparr>att_name = Some ''a.txt'', att_url = Text ''data:text/plain;base64,aGVsbG8=''\<rparr>"
  let ?E = "plain_env GenRaised"
  have nm: "name_or_default ?att = ''a.txt''"
    by (simp add: name_or_default_def)
  have pth: "tmp_path ?E ''a.txt'' = ''/tmp/llm_attachments/a.txt''"
    by (simp add: plain_env_def)
  have h1: "att_url ?att = Text (''data:'' @ ''text/plain'' @ '';'' @ ''base64'' @ '','' @ ''aGVsbG8='')"
    by simp
  have h2: "CHR '','' \<notin> set ''text/plain''" and h3: "CHR '';'' \<notin> set ''text/plain''"
    and h4': "CHR '','' \<notin> set ''base64''"
    by simp_all
  have h4: "\<not> contains_str ''data:'' ''text/plain''"
    by (simp add: contains_str_def)
  have h5: "b64decode ?E ''aGVsbG8='' = Inr ''hello''"
    by code_simp
  have h6: "open_wb ?E (tmp_path ?E (name_or_default ?att)) = None"
    and h7: "write_err ?E (tmp_path ?E (name_or_default ?att)) ''hello'' = None"
    by (simp_all add: plain_env_def)
  from decode_valid_data_uri [OF h1 h2 h3 h4 h4' h5 h6 h7, of Map.empty "[]" "[]"]
  have "decode_attachments ?E Map.empty (Some [?att])
        = ([''/tmp/llm_attachments/a.txt'' \<mapsto> ''hello''],
           Inr [\<lparr>name = ''a.txt'', path = ''/tmp/llm_attachments/a.txt'', mime = ''text/plain'',
             size' = 5\<rparr>])"
    by (simp only: nm pth) simp
  with h1 h2 h3 h4 h4' h5 h6 h7 show ?thesis
    by (simp only: nm pth) simp
qed

text \<open>
  Claim C6: the decoder skips a url outside the \<open>data:\<close> scheme, drops an attachment
  whose decoding or writing fails, processes the remaining ones, and never raises. The
  first two hold (\<open>decode_loop_skip\<close>, \<open>decode_loop_drop\<close>). But for an attachment
  whose url is null, \<open>att.get("url", "")\<close> is \<open>None\<close> and \<open>url.startswith\<close>, which
  stands before the \<open>try\<close>, raises \<open>AttributeError\<close>: the decoder ends there, whatever
  attachments remain, and the exception leaves \<open>generate_app_code\<close> too.
\<close>

theorem decode_null_url_raises:
  "decode_attachments E fs (Some (\<lparr>att_name = nm, att_url = Null\<rparr> # rest))
     = (fs, Inl AttributeError)
   \<and> generate_app_code E fs brief (Some (\<lparr>att_name = nm, att_url = Null\<rparr> # rest))
       checks round_num prev_readme
     = Inl AttributeError
   \<and> decode_attachments (plain_env GenRaised) Map.empty
       (Some [\<lparr>att_name = Some ''a.txt'', att_url = Null\<rparr>,
              \<lparr>att_name = Some ''b.txt'', att_url = Text ''data:text/plain;base64,aGVsbG8=''\<rparr>])
     = (Map.empty, Inl AttributeError)"
  by (simp add: decode_attachments_def generate_app_code_def url_or_empty_def Let_def)


text \<open>
  Claim C10. Two attachments whose name is missing, null or empty, each with a valid
  data url: both are named \<open>attachment\<close>, both records carry the scratch path of
  \<open>attachment\<close>, and after the call the file there holds the second payload only.
\<close>

theorem default_name_overwrites:
  assumes "att_name a1 = None \<or> att_name a1 = Some []"
      and "att_name a2 = None \<or> att_name a2 = Some []"
      and "att_url a1 = Text (''data:'' @ m1 @ '';base64,'' @ payload1)"
      and "att_url a2 = Text (''data:'' @ m2 @ '';base64,'' @ payload2)"
      and "CHR '','' \<notin> set m1" and "CHR '';'' \<notin> set m1" and "\<not> contains_str ''data:'' m1"
      and "CHR '','' \<notin> set m2" and "CHR '';'' \<notin> set m2" and "\<not> contains_str ''data:'' m2"
      and "b64decode E payload1 = Inr data1" and "b64decode E payload2 = Inr data2"
      and "open_wb E (tmp_path E ''attachment'') = None"
      and "write_err E (tmp_path E ''attachment'') data1 = None"
      and "write_err E (tmp_path E ''attachment'') data2 = None"
  shows "name_or_default a1 = ''attachment'' \<and> name_or_default a2 = ''attachment''
       \<and> decode_attachments E fs (Some [a1, a2])
         = (fs(tmp_path E ''attachment'' \<mapsto> data2),
            Inr [\<lparr>name = ''attachment'', path = tmp_path E ''attachment'', mime = m1,
              size' = length data1\<rparr>,
             \<lparr>name = ''attachment'', path = tmp_path E ''attachment'', mime = m2,
              size' = length data2\<rparr>])"
proof -
  have n1: "name_or_default a1 = ''attachment''" and n2: "name_or_default a2 = ''attachment''"
    using assms(1,2) by (auto simp: name_or_default_def)
  have s1: "decode_loop E fs (a1 # [a2]) []
            = decode_loop E (fs(tmp_path E ''attachment'' \<mapsto> data1)) [a2]
                ([] @ [\<lparr>name = ''attachment'', path = tmp_path E ''attachment'', mime = m1,
                        size' = length data1\<rparr>])"
    using decode_loop_data_uri [of a1 m1 "''base64''" payload1 E data1 fs "[a2]" "[]"] assms
    by (simp add: n1)
  have s2: "decode_loop E (fs(tmp_path E ''attachment'' \<mapsto> data1)) (a2 # [])
              [\<lparr>name = ''attachment'', path = tmp_path E ''attachment'', mime = m1,
                size' = length data1\<rparr>]
            = decode_loop E (fs(tmp_path E ''attachment'' \<mapsto> data1, tmp_path E ''attachment'' \<mapsto> data2)) []
                ([\<lparr>name = ''attachment'', path = tmp_path E ''attachment'', mime = m1,
                   size' = length data1\<rparr>]
                 @ [\<lparr>name = ''attachment'', path = tmp_path E ''attachment'', mime = m2,
                      size' = length data2\<rparr>])"
    using decode_loop_data_uri [of a2 m2 "''base64''" payload2 E data2
            "fs(tmp_path E ''attachment'' \<mapsto> data1)" "[]"] assms
    by (simp add: n2)
  show ?thesis
    using s1 s2 by (simp add: n1 n2 decode_attachments_def)
qed

theorem default_name_overwrites_witness:
  "(att_name \<lparr>att_name = None, att_url = Text ''data:text/plain;base64,aGVsbG8=''\<rparr> = None
      \<or> att_name \<lparr>att_name = None, att_url = Text ''data:text/plain;base64,aGVsbG8=''\<rparr> = Some [])
   \<and> (att_name \<lparr>att_name = Some [], att_url = Text ''data:text/csv;base64,aGk=''\<rparr> = None
      \<or> att_name \<lparr>att_name = Some [], att_url = Text ''data:text/csv;base64,aGk=''\<rparr> = Some [])
   \<and> b64decode (plain_env GenRaised) ''aGVsbG8='' = Inr ''hello''
   \<and> b64decode (plain_env GenRaised) ''aGk='' = Inr ''hi''
   \<and> decode_attachments (plain_env GenRaised) Map.empty
         (Some [\<lparr>att_name = None, att_url = Text ''data:text/plain;base64,aGVsbG8=''\<rparr>,
                \<lparr>att_name = Some [], att_url = Text ''data:text/csv;base64,aGk=''\<rparr>])
       = ([''/tmp/llm_attachments/attachment'' \<mapsto> ''hi''],
          Inr [\<lparr>name = ''attachment'', path = ''/tmp/llm_attachments/attachment'',
            mime = ''text/plain'', size' = 5\<rparr>,
           \<lparr>name = ''attachment'', path = ''/tmp/llm_attachments/attachment'',
            mime = ''text/csv'', size' = 2\<rparr>])"
proof -
  let ?E = "plain_env GenRaised"
  let ?a1 = "\<lparr>att_name = None, att_url = Text ''data:text/plain;base64,aGVsbG8=''\<rparr>"
  let ?a2 = "\<lparr>att_name = Some [], att_url = Text ''data:text/csv;base64,aGk=''\<rparr>"
  have pth: "tmp_path ?E ''attachment'' = ''/tmp/llm_attachments/attachment''"
    by (simp add: plain_env_def)
  have h1: "att_name ?a1 = None \<or> att_name ?a1 = Some []"
    and h2: "att_name ?a2 = None \<or> att_name ?a2 = Some []"
    by simp_all
  have h3: "att_url ?a1 = Text (''data:'' @ ''text/plain'' @ '';base64,'' @ ''aGVsbG8='')"
    and h4: "att_url ?a2 = Text (''data:'' @ ''text/csv'' @ '';base64,'' @ ''aGk='')"
    by simp_all
  have h5: "CHR '','' \<notin> set ''text/plain''" and h6: "CHR '';'' \<notin> set ''text/plain''"
    and h8: "CHR '','' \<notin> set ''text/csv''" and h9: "CHR '';'' \<notin> set ''text/csv''"
    by simp_all
  have h7: "\<not> contains_str ''data:'' ''text/plain''"
    and h10: "\<not> contains_str ''data:'' ''text/csv''"
    by (simp_all add: contains_str_def)
  have h11: "b64decode ?E ''aGVsbG8='' = Inr ''hello''"
    and h12: "b64decode ?E ''aGk='' = Inr ''hi''"
    by code_simp+
  have h13: "open_wb ?E (tmp_path ?E ''attachment'') = None"
    and h14: "write_err ?E (tmp_path ?E ''attachment'') ''hello'' = None"
    and h15: "write_err ?E (tmp_path ?E ''attachment'') ''hi'' = None"
    by (simp_all add: plain_env_def)
  from default_name_overwrites
         [OF h1 h2 h3 h4 h5 h6 h7 h8 h9 h10 h11 h12 h13 h14 h15, of Map.empty]
  have "decode_attachments ?E Map.empty (Some [?a1, ?a2])
        = ([''/tmp/llm_attachments/attachment'' \<mapsto> ''hi''],
           Inr [\<lparr>name = ''attachment'', path = ''/tmp/llm_attachments/attachment'',
             mime = ''text/plain'', size' = 5\<rparr>,
            \<lparr>name = ''attachment'', path = ''/tmp/llm_attachments/attachment'',
             mime = ''text/csv'', size' = 2\<rparr>])"
    by (simp only: pth) simp
  with h1 h2 h11 h12 show ?thesis
    by (intro conjI)
qed


section \<open>Claims about the summarizer\<close>






text \<open>
  Claim C8. The summary holds exactly one line per attachment, in the order of the
  input, the lines joined by newlines (a line is the attachment's entry, with its
  preview), and no exception is among the summarizer's results. Whatever the body of the
  \<open>try\<close> raises for an attachment, a failed open of its file for one, its line is the
  name, the mime type and \<open>(could not read preview: error)\<close>; an attachment that is not
  previewable has its size in bytes.
\<close>

theorem summarize_entries:
  "summarize_attachment_meta E fs saved = join_str newline (map (summary_line E fs) saved)
   \<and> length (map (summary_line E fs) saved) = length saved
   \<and> (summary_try E fs s = Inl e \<longrightarrow>
        summary_line E fs s
          = ''- '' @ name s @ '' ('' @ mime s @ ''): (could not read preview: ''
            @ str_error e @ '')'')
   \<and> (previewable s \<and> open_text E fs (path s) = Inl e \<longrightarrow> summary_try E fs s = Inl e)
   \<and> (\<not> previewable s \<longrightarrow>
        summary_line E fs s
          = ''- '' @ name s @ '' ('' @ mime s @ ''): '' @ digits (size' s) @ '' bytes'')"
  by (simp add: summarize_attachment_meta_def summarize_loop_map summary_line_def
        summary_try_def line_head_def)

theorem summarize_entries_witness:
  "previewable \<lparr>name = ''n.txt'', path = ''/tmp/llm_attachments/n.txt'', mime = ''text/plain'', size' = 3\<rparr>
   \<and> open_text (plain_env GenRaised) Map.empty ''/tmp/llm_attachments/n.txt''
       = Inl (OSError (''[Errno 2] No such file or directory: '' @ [CHR 0x27]
                       @ ''/tmp/llm_attachments/n.txt'' @ [CHR 0x27]))
   \<and> \<not> previewable \<lparr>name = ''i.png'', path = ''/tmp/llm_attachments/i.png'', mime = ''image/png'', size' = 120\<rparr>
   \<and> summarize_attachment_meta (plain_env GenRaised) Map.empty
         [\<lparr>name = ''n.txt'', path = ''/tmp/llm_attachments/n.txt'', mime = ''text/plain'', size' = 3\<rparr>,
          \<lparr>name = ''i.png'', path = ''/tmp/llm_attachments/i.png'', mime = ''image/png'', size' = 120\<rparr>]
       = ''- n.txt (text/plain): (could not read preview: [Errno 2] No such file or directory: ''
         @ [CHR 0x27] @ ''/tmp/llm_attachments/n.txt'' @ [CHR 0x27] @ '')''
         @ ''\<newline>'' @ ''- i.png (image/png): 120 bytes''"
proof -
  let ?E = "plain_env GenRaised"
  let ?n = "\<lparr>name = ''n.txt'', path = ''/tmp/llm_attachments/n.txt'', mime = ''text/plain'', size' = 3\<rparr>"
  let ?i = "\<lparr>name = ''i.png'', path = ''/tmp/llm_attachments/i.png'', mime = ''image/png'', size' = 120\<rparr>"
  let ?e = "OSError (''[Errno 2] No such file or directory: '' @ [CHR 0x27]
                     @ ''/tmp/llm_attachments/n.txt'' @ [CHR 0x27])"
  have h1: "previewable ?n"
    by (simp add: previewable_def)
  have h2: "open_text ?E Map.empty (path ?n) = Inl ?e"
    by (simp add: open_text_def plain_env_def)
  have h3: "\<not> previewable ?i"
    by (simp add: previewable_def suffix_def)
  have d: "digits 120 = ''120''"
    by code_simp
  note a = summarize_entries [of ?E Map.empty "[?n, ?i]" ?n ?e]
  note b = summarize_entries [of ?E Map.empty "[?n, ?i]" ?i ?e]
  from a h1 h2 have "summary_try ?E Map.empty ?n = Inl ?e"
    by blast
  with a have l1: "summary_line ?E Map.empty ?n
      = ''- n.txt (text/plain): (could not read preview: [Errno 2] No such file or directory: ''
        @ [CHR 0x27] @ ''/tmp/llm_attachments/n.txt'' @ [CHR 0x27] @ '')''"
    by simp
  from b h3 have l2: "summary_line ?E Map.empty ?i = ''- i.png (image/png): 120 bytes''"
    by (simp add: d)
  from a have "summarize_attachment_meta ?E Map.empty [?n, ?i]
               = join_str newline (map (summary_line ?E Map.empty) [?n, ?i])"
    by blast
  then have "summarize_attachment_meta ?E Map.empty [?n, ?i]
       = ''- n.txt (text/plain): (could not read preview: [Errno 2] No such file or directory: ''
         @ [CHR 0x27] @ ''/tmp/llm_attachments/n.txt'' @ [CHR 0x27] @ '')''
         @ ''\<newline>'' @ ''- i.png (image/png): 120 bytes''"
    by (simp only: list.map join_str.simps l1 l2 newline_def append_assoc)
  with h1 h2 h3 show ?thesis
    by simp
qed

section \<open>Claims about the fallback documentation\<close>

text \<open>
  Claim C9. The fallback documentation is a function of the brief, the checks, the
  attachment summary and the round alone. It is the title with the round, the brief,
  the attachment summary and the checks joined by newlines in their order (the first
  check, then each further check after a newline), between fixed headings, followed by
  the Setup and Notes sections; it contains the brief, the summary and the joined checks
  verbatim and is never empty.
\<close>

theorem readme_fallback_layout:
  "generate_readme_fallback brief checks meta round_num
     = ''# Auto-generated README (Round '' @ str_int round_num @ '')''
       @ ''\<newline>\<newline>**Project brief:** '' @ brief
       @ ''\<newline>\<newline>**Attachments:**\<newline>'' @ (case meta of None \<Rightarrow> [] | Some m \<Rightarrow> m)
       @ ''\<newline>\<newline>**Checks to meet:**\<newline>''
       @ join_str ''\<newline>'' (case checks of None \<Rightarrow> [] | Some cs \<Rightarrow> cs)
       @ ''\<newline>\<newline>## Setup\<newline>1. Open `index.html` in a browser.\<newline>2. No build steps required.''
       @ ''\<newline>\<newline>## Notes\<newline>This README was generated as a fallback because the LLM did not return an explicit README.\<newline>''
   \<and> join_str ''\<newline>'' (c # cs) = c @ concat (map (\<lambda>x. ''\<newline>'' @ x) cs)
   \<and> sublist brief (generate_readme_fallback brief checks meta round_num)
   \<and> sublist (case meta of None \<Rightarrow> [] | Some m \<Rightarrow> m)
         (generate_readme_fallback brief checks meta round_num)
   \<and> sublist (join_str ''\<newline>'' (case checks of None \<Rightarrow> [] | Some cs \<Rightarrow> cs))
         (generate_readme_fallback brief checks meta round_num)
   \<and> generate_readme_fallback brief checks meta round_num \<noteq> []"
proof (intro conjI)
  show "generate_readme_fallback brief checks meta round_num
     = ''# Auto-generated README (Round '' @ str_int round_num @ '')''
       @ ''\<newline>\<newline>**Project brief:** '' @ brief
       @ ''\<newline>\<newline>**Attachments:**\<newline>'' @ (case meta of None \<Rightarrow> [] | Some m \<Rightarrow> m)
       @ ''\<newline>\<newline>**Checks to meet:**\<newline>''
       @ join_str ''\<newline>'' (case checks of None \<Rightarrow> [] | Some cs \<Rightarrow> cs)
       @ ''\<newline>\<newline>## Setup\<newline>1. Open `index.html` in a browser.\<newline>2. No build steps required.''
       @ ''\<newline>\<newline>## Notes\<newline>This README was generated as a fallback because the LLM did not return an explicit README.\<newline>''"
    by (simp add: generate_readme_fallback_def readme_title_def readme_tail_def newline_def Let_def)
  show "join_str ''\<newline>'' (c # cs) = c @ concat (map (\<lambda>x. ''\<newline>'' @ x) cs)"
    by (rule join_str_Cons)
  show "sublist brief (generate_readme_fallback brief checks meta round_num)"
    unfolding generate_readme_fallback_def Let_def sublist_def by (metis append.assoc)
  show "sublist (case meta of None \<Rightarrow> [] | Some m \<Rightarrow> m)
         (generate_readme_fallback brief checks meta round_num)"
    unfolding generate_readme_fallback_def Let_def sublist_def by (metis append.assoc)
  show "sublist (join_str ''\<newline>'' (case checks of None \<Rightarrow> [] | Some cs \<Rightarrow> cs))
         (generate_readme_fallback brief checks meta round_num)"
    unfolding generate_readme_fallback_def Let_def sublist_def newline_def by (metis append.assoc)
  show "generate_readme_fallback brief checks meta round_num \<noteq> []"
    by (simp add: generate_readme_fallback_def readme_title_def Let_def)
qed

theorem readme_fallback_layout_witness:
  "generate_readme_fallback ''a page'' (Some [''must load'', ''must be responsive'']) (Some ''- a.txt (text/plain): 5 bytes'') 2
   = ''# Auto-generated README (Round 2)\<newline>\<newline>**Project brief:** a page\<newline>\<newline>**Attachments:**\<newline>- a.txt (text/plain): 5 bytes\<newline>\<newline>**Checks to meet:**\<newline>must load\<newline>must be responsive\<newline>\<newline>## Setup\<newline>1. Open `index.html` in a browser.\<newline>2. No build steps required.\<newline>\<newline>## Notes\<newline>This README was generated as a fallback because the LLM did not return an explicit README.\<newline>''"
proof -
  have r: "str_int 2 = ''2''"
    by code_simp
  from readme_fallback_layout
         [of "''a page''" "Some [''must load'', ''must be responsive'']"
             "Some ''- a.txt (text/plain): 5 bytes''" 2]
  show ?thesis
    by (simp add: r)
qed

end
